theory Spec2Isabelle
  imports Main "HOL-Library.Sublist" "HOL-Library.Product_Lexorder" "HOL-Library.Option_ord"
begin

section \<open>Errors and their classification\<close>

text \<open>
  A value caught by \<^verbatim>\<open>catch (error)\<close>: an instance of \<^verbatim>\<open>Error\<close> with its message, or
  any other thrown value (for which \<^verbatim>\<open>error instanceof Error\<close> is false).
\<close>

datatype error = Error (message: string) | Thrown

text \<open>\<^verbatim>\<open>String.prototype.includes\<close>: the needle occurs as a contiguous run.\<close>

fun str_includes :: "string \<Rightarrow> string \<Rightarrow> bool" where
  "str_includes [] needle = (needle = [])"
| "str_includes (c # cs) needle = (prefix needle (c # cs) \<or> str_includes cs needle)"

text \<open>
  The condition of the \<^verbatim>\<open>if\<close> in the catch block of \<^verbatim>\<open>withRetry\<close>: the errors after
  which the pool singleton is reset.
\<close>

fun transient :: "error \<Rightarrow> bool" where
  "transient (Error msg) =
     (str_includes msg ''ConnectionError'' \<or> str_includes msg ''RequestError'' \<or>
      str_includes msg ''TimeoutError'')"
| "transient Thrown = False"

section \<open>The database and its driver\<close>

text \<open>A \<^verbatim>\<open>DATETIME2\<close> value: the date, and the time of day in ticks since midnight.\<close>

record timestamp =
  year :: int
  month :: int
  day :: int
  time :: int

text \<open>
  A row of table \<^verbatim>\<open>users\<close>. The columns declared without \<^verbatim>\<open>NOT NULL\<close> are nullable
  (\<open>None\<close> is \<^verbatim>\<open>NULL\<close>). Column \<^verbatim>\<open>id\<close> is \<open>user_id\<close> here.
\<close>

record user =
  user_id :: string
  email :: string
  name :: string
  password :: string
  createdAt :: "timestamp option"
  updatedAt :: "timestamp option"
  last_login_at :: "timestamp option"
  login_count :: "int option"
  subscriptionStatus :: "string option"
  monthlyUsage :: "int option"
  usageResetDate :: "timestamp option"

text \<open>
  A row of table \<^verbatim>\<open>audio_files\<close>; columns \<^verbatim>\<open>id\<close>, \<^verbatim>\<open>text\<close> and \<^verbatim>\<open>createdAt\<close> are
  \<open>audio_id\<close>, \<open>audio_text\<close> and \<open>audio_createdAt\<close> here.
\<close>

record audio_file =
  audio_id :: string
  userId :: string
  filename :: string
  audio_text :: string
  voice :: "string option"
  settings :: "string option"
  audioUrl :: "string option"
  fileSize :: "int option"
  audio_createdAt :: "timestamp option"

text \<open>
  Everything outside the module. The two tables; the server clock \<^verbatim>\<open>GETDATE()\<close>; the
  comparison the server's collation uses for \<^verbatim>\<open>=\<close> on \<^verbatim>\<open>NVARCHAR\<close> values (the schema
  names no collation, so it is a parameter of the world); the outcomes the driver will
  give to the next calls of \<^verbatim>\<open>pool.connect()\<close> and to the next calls of
  \<^verbatim>\<open>request.query()\<close>, each in order, \<open>None\<close> for a call that goes through and \<open>Some e\<close>
  for one that throws \<open>e\<close>, an exhausted list meaning that every further call goes
  through; the process clock \<^verbatim>\<open>Date.now()\<close>; and the successive values of
  \<^verbatim>\<open>Math.random().toString(36).substr(2, 9)\<close> with the number of values already drawn.
\<close>

record world =
  users :: "user list"
  audio_files :: "audio_file list"
  GETDATE :: timestamp
  collation :: "string \<Rightarrow> string \<Rightarrow> bool"
  connect_results :: "error option list"
  query_results :: "error option list"
  Date_now :: int
  random_suffix :: "nat \<Rightarrow> string"
  random_drawn :: nat

text \<open>\<^verbatim>\<open>pool.connect()\<close>: the driver's next connect outcome.\<close>

definition connect :: "world \<Rightarrow> error option \<times> world" where
  "connect w =
     (case connect_results w of
        [] \<Rightarrow> (None, w)
      | r # rs \<Rightarrow> (r, w\<lparr>connect_results := rs\<rparr>))"

text \<open>
  \<^verbatim>\<open>pool.request()...query(sql)\<close>: when the driver's next query outcome is a failure the
  call throws it and the tables stay as they are. Otherwise the statement runs on the
  tables: it either fails with a server error and changes nothing, or gives its result
  and the new tables.
\<close>

definition run_statement ::
  "(world \<Rightarrow> error + 'r \<times> world) \<Rightarrow> world \<Rightarrow> (error + 'r) \<times> world" where
  "run_statement statement w =
     (case statement w of
        Inl e \<Rightarrow> (Inl e, w)
      | Inr (r, w') \<Rightarrow> (Inr r, w'))"

definition query :: "(world \<Rightarrow> error + 'r \<times> world) \<Rightarrow> world \<Rightarrow> (error + 'r) \<times> world" where
  "query statement w =
     (case query_results w of
        [] \<Rightarrow> run_statement statement w
      | None # rs \<Rightarrow> run_statement statement (w\<lparr>query_results := rs\<rparr>)
      | Some e # rs \<Rightarrow> (Inl e, w\<lparr>query_results := rs\<rparr>))"

section \<open>The pool singleton\<close>

text \<open>
  The two flags of a \<^verbatim>\<open>sql.ConnectionPool\<close> that the module reads. The model follows one
  call at a time: the pool's \<^verbatim>\<open>error\<close> event, which resets the singleton between calls, the
  console output and the signal handlers are left out.
\<close>

record ConnectionPool =
  connected :: bool
  connecting :: bool

text \<open>
  The events of a run that the properties below count: the operation was called and threw
  (\<open>Ran (Some e)\<close>) or returned (\<open>Ran None\<close>); an assignment \<^verbatim>\<open>pool = null\<close> was
  executed; the run waited in \<^verbatim>\<open>setTimeout\<close> for so many milliseconds.
\<close>

datatype event = Ran "error option" | Discarded | Slept int

text \<open>
  The state of a run: the module variable \<^verbatim>\<open>pool\<close>, the world, and the events so far
  (the trace is not a variable of the source; it records what the source does).
\<close>

record state =
  pool :: "ConnectionPool option"
  world :: world
  trace :: "event list"

definition emit :: "event \<Rightarrow> state \<Rightarrow> state" where
  "emit ev s = s\<lparr>trace := trace s @ [ev]\<rparr>"

text \<open>
  \<^verbatim>\<open>getDbConnection\<close>: build the pool when there is none; connect it when it is neither
  connected nor connecting; on a failed connect reset the singleton and rethrow.
\<close>

definition getDbConnection :: "state \<Rightarrow> (error + ConnectionPool) \<times> state" where
  "getDbConnection s =
     (let p = (case pool s of
                 None \<Rightarrow> \<lparr>connected = False, connecting = False\<rparr>
               | Some q \<Rightarrow> q)
      in if \<not> connected p \<and> \<not> connecting p then
           (case connect (world s) of
              (Some e, w) \<Rightarrow> (Inl e, emit Discarded (s\<lparr>pool := None, world := w\<rparr>))
            | (None, w) \<Rightarrow>
                (Inr (p\<lparr>connected := True\<rparr>),
                 s\<lparr>pool := Some (p\<lparr>connected := True\<rparr>), world := w\<rparr>))
         else (Inr p, s\<lparr>pool := Some p\<rparr>))"

section \<open>The retry wrapper\<close>

text \<open>
  The body of the \<^verbatim>\<open>try\<close> block: borrow the pool, then run the operation on it. The
  operations of the module use the pool for nothing but their query, so an operation acts
  on the world only.
\<close>

definition attempt ::
  "(ConnectionPool \<Rightarrow> world \<Rightarrow> (error + 'a) \<times> world) \<Rightarrow> state \<Rightarrow> (error + 'a) \<times> state" where
  "attempt operation s =
     (case getDbConnection s of
        (Inl e, s1) \<Rightarrow> (Inl e, s1)
      | (Inr p, s1) \<Rightarrow>
          (case operation p (world s1) of
             (Inl e, w) \<Rightarrow> (Inl e, emit (Ran (Some e)) (s1\<lparr>world := w\<rparr>))
           | (Inr v, w) \<Rightarrow> (Inr v, emit (Ran None) (s1\<lparr>world := w\<rparr>))))"

text \<open>The catch block up to its \<^verbatim>\<open>throw\<close>: the pool reset after the classified errors.\<close>

definition reset_pool_on :: "error \<Rightarrow> state \<Rightarrow> state" where
  "reset_pool_on e s = (if transient e then emit Discarded (s\<lparr>pool := None\<rparr>) else s)"

text \<open>
  The \<^verbatim>\<open>while\<close> loop of \<^verbatim>\<open>withRetry\<close>, from a given \<^verbatim>\<open>retryCount\<close>. The last branch is
  the \<^verbatim>\<open>throw new Error('Max retries exceeded')\<close> after the loop.
\<close>

function withRetry_loop ::
  "(ConnectionPool \<Rightarrow> world \<Rightarrow> (error + 'a) \<times> world) \<Rightarrow> int \<Rightarrow> int \<Rightarrow> state
     \<Rightarrow> (error + 'a) \<times> state" where
  "withRetry_loop operation maxRetries retryCount s =
     (if retryCount \<le> maxRetries then
        (case attempt operation s of
           (Inr v, s1) \<Rightarrow> (Inr v, s1)
         | (Inl e, s1) \<Rightarrow>
             (if retryCount + 1 > maxRetries then (Inl e, reset_pool_on e s1)
              else withRetry_loop operation maxRetries (retryCount + 1)
                     (emit (Slept (500 * (retryCount + 1))) (reset_pool_on e s1))))
      else (Inl (Error ''Max retries exceeded''), s))"
  by pat_completeness auto
termination
  by (relation "measure (\<lambda>(operation, maxRetries, retryCount, s). nat (maxRetries + 1 - retryCount))")
    auto

definition withRetry ::
  "(ConnectionPool \<Rightarrow> world \<Rightarrow> (error + 'a) \<times> world) \<Rightarrow> int \<Rightarrow> state \<Rightarrow> (error + 'a) \<times> state" where
  "withRetry operation maxRetries s = withRetry_loop operation maxRetries 0 s"

text \<open>
  Every function of the module calls \<^verbatim>\<open>withRetry\<close> with one argument, so with the
  default \<^verbatim>\<open>maxRetries = 2\<close>.
\<close>

abbreviation withRetry_default ::
  "(ConnectionPool \<Rightarrow> world \<Rightarrow> (error + 'a) \<times> world) \<Rightarrow> state \<Rightarrow> (error + 'a) \<times> state" where
  "withRetry_default operation \<equiv> withRetry operation 2"

text \<open>Reading a trace: the outcomes of the operation's calls, and the number of resets.\<close>

fun outcomes :: "event list \<Rightarrow> error option list" where
  "outcomes [] = []"
| "outcomes (Ran r # evs) = r # outcomes evs"
| "outcomes (Discarded # evs) = outcomes evs"
| "outcomes (Slept ms # evs) = outcomes evs"

definition discards :: "event list \<Rightarrow> nat" where
  "discards evs = count_list evs Discarded"

section \<open>Values of JavaScript and of SQL\<close>

text \<open>
  The numbers of the module (usage, characters, sizes, row limits) are integers here;
  fractions and \<^verbatim>\<open>NaN\<close> as arguments are left out.
\<close>

text \<open>\<^verbatim>\<open>recordset[0] || null\<close>: the first row, or null when there is none.\<close>

fun first_or_null :: "'a list \<Rightarrow> 'a option" where
  "first_or_null [] = None"
| "first_or_null (x # xs) = Some x"

text \<open>
  \<^verbatim>\<open>String.prototype.toLowerCase\<close> on the letters A to Z; the model's strings are ASCII,
  and every other character stays as it is.
\<close>

definition toLowerCase :: "string \<Rightarrow> string" where
  "toLowerCase str =
     map (\<lambda>c. case map_of (zip ''ABCDEFGHIJKLMNOPQRSTUVWXYZ'' ''abcdefghijklmnopqrstuvwxyz'') c of
                None \<Rightarrow> c
              | Some l \<Rightarrow> l) str"

text \<open>
  The range of the SQL type \<^verbatim>\<open>INT\<close>. The driver refuses a value outside it for a parameter
  declared \<^verbatim>\<open>sql.Int\<close>, and the server aborts a statement whose \<^verbatim>\<open>INT\<close> arithmetic leaves
  it (the configuration sets \<^verbatim>\<open>enableArithAbort\<close>). Server and driver messages are given
  by their opening words.
\<close>

definition int32 :: "int \<Rightarrow> bool" where
  "int32 n = (- 2147483648 \<le> n \<and> n \<le> 2147483647)"

definition invalid_parameter :: error where
  "invalid_parameter = Error ''Validation failed for parameter''"

definition arithmetic_overflow :: error where
  "arithmetic_overflow = Error ''Arithmetic overflow error converting expression to data type int.''"

text \<open>
  T-SQL's \<^verbatim>\<open>DATEDIFF(month, startdate, enddate)\<close>: the number of month boundaries crossed
  between the two dates. Only the year and the month of each date enter.
\<close>

definition DATEDIFF_month :: "timestamp \<Rightarrow> timestamp \<Rightarrow> int" where
  "DATEDIFF_month startdate enddate =
     (year enddate - year startdate) * 12 + (month enddate - month startdate)"

text \<open>
  The number values the module computes: an integer, \<^verbatim>\<open>NaN\<close>, or (where a number was
  expected) a member that the object literal \<^verbatim>\<open>limits\<close> inherits from \<^verbatim>\<open>Object.prototype\<close>.
\<close>

datatype jsval = Number int | NaN | Member string

text \<open>The property names every object literal inherits from \<^verbatim>\<open>Object.prototype\<close>.\<close>

definition Object_prototype :: "string list" where
  "Object_prototype =
     [''constructor'', ''hasOwnProperty'', ''isPrototypeOf'', ''propertyIsEnumerable'',
      ''toLocaleString'', ''toString'', ''valueOf'', ''__proto__'', ''__defineGetter__'',
      ''__defineSetter__'', ''__lookupGetter__'', ''__lookupSetter__'']"

text \<open>
  \<^verbatim>\<open>limits[key]\<close> for the literal \<^verbatim>\<open>{ free: 5000, pro: 100000, premium: 500000 }\<close>: an own
  property, an inherited one, or undefined (\<open>None\<close>).
\<close>

definition limits :: "string \<Rightarrow> jsval option" where
  "limits key =
     (if key = ''free'' then Some (Number 5000)
      else if key = ''pro'' then Some (Number 100000)
      else if key = ''premium'' then Some (Number 500000)
      else if key \<in> set Object_prototype then Some (Member key)
      else None)"

text \<open>
  \<^verbatim>\<open>limits[subscriptionStatus] || 5000\<close>. A null or undefined status is looked up under the
  key \<^verbatim>\<open>"null"\<close> or \<^verbatim>\<open>"undefined"\<close>, which the literal does not have; the three numbers
  and the inherited members are truthy.
\<close>

definition userLimit :: "string option \<Rightarrow> jsval" where
  "userLimit status =
     (case status of
        None \<Rightarrow> Number 5000
      | Some key \<Rightarrow> (case limits key of None \<Rightarrow> Number 5000 | Some v \<Rightarrow> v))"

text \<open>\<^verbatim>\<open>monthlyUsage || 0\<close>, which is also the number that \<^verbatim>\<open>+\<close> makes of the column's value.\<close>

definition or_zero :: "int option \<Rightarrow> int" where
  "or_zero v = (case v of None \<Rightarrow> 0 | Some n \<Rightarrow> n)"

text \<open>
  \<^verbatim>\<open>n <= limit\<close> and \<^verbatim>\<open>limit - n\<close> for a number \<open>n\<close>: an inherited member (a function or
  the prototype object) converts to \<^verbatim>\<open>NaN\<close>, so the comparison is false and the
  difference is \<^verbatim>\<open>NaN\<close>.
\<close>

fun js_le :: "int \<Rightarrow> jsval \<Rightarrow> bool" where
  "js_le n (Number l) = (n \<le> l)"
| "js_le n NaN = False"
| "js_le n (Member k) = False"

fun js_minus :: "jsval \<Rightarrow> int \<Rightarrow> jsval" where
  "js_minus (Number l) n = Number (l - n)"
| "js_minus NaN n = NaN"
| "js_minus (Member k) n = NaN"

text \<open>The decimal digits of a number, as a template literal prints \<^verbatim>\<open>Date.now()\<close>.\<close>

fun digits :: "nat \<Rightarrow> string" where
  "digits n =
     (if n < 10 then [''0123456789'' ! n]
      else digits (n div 10) @ [''0123456789'' ! (n mod 10)])"

definition decimal :: "int \<Rightarrow> string" where
  "decimal n = (if n < 0 then CHR ''-'' # digits (nat (- n)) else digits (nat n))"

section \<open>User operations\<close>

text \<open>
  \<^verbatim>\<open>createUser\<close>; the fields of its argument are passed one by one. The insert fails on
  the primary key \<^verbatim>\<open>id\<close> and on the unique \<^verbatim>\<open>email\<close>; the columns it does not name get
  their defaults.
\<close>

definition insert_user :: "string \<Rightarrow> string \<Rightarrow> string \<Rightarrow> string \<Rightarrow> world \<Rightarrow> error + unit \<times> world" where
  "insert_user new_id new_email new_name new_password w =
     (if list_ex (\<lambda>u. collation w (user_id u) new_id) (users w)
      then Inl (Error ''Violation of PRIMARY KEY constraint'')
      else if list_ex (\<lambda>u. collation w (email u) new_email) (users w)
      then Inl (Error ''Violation of UNIQUE KEY constraint'')
      else Inr ((), w\<lparr>users := users w @
             [\<lparr>user_id = new_id, email = new_email, name = new_name, password = new_password,
               createdAt = Some (GETDATE w), updatedAt = Some (GETDATE w),
               last_login_at = None, login_count = Some 0,
               subscriptionStatus = Some ''free'', monthlyUsage = Some 0,
               usageResetDate = Some (GETDATE w)\<rparr>]\<rparr>))"

definition createUser :: "string \<Rightarrow> string \<Rightarrow> string \<Rightarrow> string \<Rightarrow> state \<Rightarrow> (error + unit) \<times> state" where
  "createUser new_id new_email new_name new_password =
     withRetry_default (\<lambda>pool. query (insert_user new_id new_email new_name new_password))"

definition select_by_email :: "string \<Rightarrow> world \<Rightarrow> error + user list \<times> world" where
  "select_by_email e w = Inr (filter (\<lambda>u. collation w (email u) e) (users w), w)"

definition select_by_id :: "string \<Rightarrow> world \<Rightarrow> error + user list \<times> world" where
  "select_by_id i w = Inr (filter (\<lambda>u. collation w (user_id u) i) (users w), w)"

text \<open>The first row of a result, after a query that went through.\<close>

definition first_row :: "(error + 'r list) \<times> world \<Rightarrow> (error + 'r option) \<times> world" where
  "first_row result =
     (case result of
        (Inl e, w) \<Rightarrow> (Inl e, w)
      | (Inr recordset, w) \<Rightarrow> (Inr (first_or_null recordset), w))"

definition findUserByEmail :: "string \<Rightarrow> state \<Rightarrow> (error + user option) \<times> state" where
  "findUserByEmail e =
     withRetry_default (\<lambda>pool w. first_row (query (select_by_email (toLowerCase e)) w))"

definition findUserById :: "string \<Rightarrow> state \<Rightarrow> (error + user option) \<times> state" where
  "findUserById i = withRetry_default (\<lambda>pool w. first_row (query (select_by_id i) w))"

text \<open>
  \<^verbatim>\<open>updateLoginTracking\<close>: \<^verbatim>\<open>login_count = ISNULL(login_count, 0) + 1\<close> on the rows with the
  given id.
\<close>

definition update_login :: "string \<Rightarrow> world \<Rightarrow> error + unit \<times> world" where
  "update_login i w =
     (if list_ex (\<lambda>u. collation w (user_id u) i \<and> \<not> int32 (or_zero (login_count u) + 1)) (users w)
      then Inl arithmetic_overflow
      else Inr ((), w\<lparr>users :=
             map (\<lambda>u. if collation w (user_id u) i
                       then u\<lparr>last_login_at := Some (GETDATE w),
                              login_count := Some (or_zero (login_count u) + 1)\<rparr>
                       else u) (users w)\<rparr>))"

definition updateLoginTracking :: "string \<Rightarrow> state \<Rightarrow> (error + unit) \<times> state" where
  "updateLoginTracking i = withRetry_default (\<lambda>pool. query (update_login i))"

text \<open>
  \<^verbatim>\<open>getUserLoginHistory\<close> and \<^verbatim>\<open>getUserWithSubscription\<close> select some of the columns of
  the row with the given id; the model hands over the whole row.
\<close>

definition getUserLoginHistory :: "string \<Rightarrow> state \<Rightarrow> (error + user option) \<times> state" where
  "getUserLoginHistory i = withRetry_default (\<lambda>pool w. first_row (query (select_by_id i) w))"

definition getUserWithSubscription :: "string \<Rightarrow> state \<Rightarrow> (error + user option) \<times> state" where
  "getUserWithSubscription i = withRetry_default (\<lambda>pool w. first_row (query (select_by_id i) w))"

section \<open>The usage quota\<close>

text \<open>
  \<^verbatim>\<open>updateUserUsage\<close>: \<^verbatim>\<open>monthlyUsage = monthlyUsage + @charactersUsed\<close> on the rows with
  the given id; a \<^verbatim>\<open>NULL\<close> usage stays \<^verbatim>\<open>NULL\<close>.
\<close>

definition update_usage :: "string \<Rightarrow> int \<Rightarrow> world \<Rightarrow> error + unit \<times> world" where
  "update_usage i charactersUsed w =
     (if \<not> int32 charactersUsed then Inl invalid_parameter
      else if list_ex (\<lambda>u. collation w (user_id u) i \<and>
                 (case monthlyUsage u of None \<Rightarrow> False | Some m \<Rightarrow> \<not> int32 (m + charactersUsed)))
              (users w)
      then Inl arithmetic_overflow
      else Inr ((), w\<lparr>users :=
             map (\<lambda>u. if collation w (user_id u) i
                       then u\<lparr>monthlyUsage := map_option (\<lambda>m. m + charactersUsed) (monthlyUsage u)\<rparr>
                       else u) (users w)\<rparr>))"

definition updateUserUsage :: "string \<Rightarrow> int \<Rightarrow> state \<Rightarrow> (error + unit) \<times> state" where
  "updateUserUsage i charactersUsed = withRetry_default (\<lambda>pool. query (update_usage i charactersUsed))"

record usage_check =
  canUse :: bool
  currentUsage :: "int option"
  limit :: jsval

definition canUserUseCharacters :: "string \<Rightarrow> int \<Rightarrow> state \<Rightarrow> (error + usage_check) \<times> state" where
  "canUserUseCharacters i charactersNeeded s =
     (case getUserWithSubscription i s of
        (Inl e, s1) \<Rightarrow> (Inl e, s1)
      | (Inr None, s1) \<Rightarrow> (Inr \<lparr>canUse = False, currentUsage = Some 0, limit = Number 0\<rparr>, s1)
      | (Inr (Some u), s1) \<Rightarrow>
          (Inr \<lparr>canUse = js_le (or_zero (monthlyUsage u) + charactersNeeded)
                            (userLimit (subscriptionStatus u)),
                currentUsage = monthlyUsage u,
                limit = userLimit (subscriptionStatus u)\<rparr>, s1))"

text \<open>
  \<^verbatim>\<open>resetMonthlyUsage\<close>: the rows with \<^verbatim>\<open>DATEDIFF(month, usageResetDate, GETDATE()) >= 1\<close>;
  the condition is not true of a \<^verbatim>\<open>NULL\<close> date.
\<close>

definition due :: "timestamp \<Rightarrow> user \<Rightarrow> bool" where
  "due now u =
     (case usageResetDate u of
        None \<Rightarrow> False
      | Some d \<Rightarrow> DATEDIFF_month d now \<ge> 1)"

definition reset_usage :: "world \<Rightarrow> error + unit \<times> world" where
  "reset_usage w =
     Inr ((), w\<lparr>users :=
       map (\<lambda>u. if due (GETDATE w) u
                 then u\<lparr>monthlyUsage := Some 0, usageResetDate := Some (GETDATE w)\<rparr>
                 else u) (users w)\<rparr>)"

definition resetMonthlyUsage :: "state \<Rightarrow> (error + unit) \<times> state" where
  "resetMonthlyUsage = withRetry_default (\<lambda>pool. query reset_usage)"

section \<open>Audio files and the dashboard\<close>

text \<open>
  A value of type \<^verbatim>\<open>any\<close> as far as \<^verbatim>\<open>saveAudioFile\<close> looks at it: falsy, or truthy with
  the text that \<^verbatim>\<open>JSON.stringify\<close> gives for it.
\<close>

datatype any = Falsy | Truthy string

text \<open>The argument of \<^verbatim>\<open>saveAudioFile\<close>; an optional field that is left out is \<open>None\<close>.\<close>

record audioData =
  data_userId :: string
  data_filename :: string
  data_text :: string
  data_voice :: "string option"
  data_settings :: "any option"
  data_audioUrl :: "string option"
  data_fileSize :: "int option"

text \<open>\<^verbatim>\<open>value || null\<close> for an optional string and for an optional number.\<close>

definition string_or_null :: "string option \<Rightarrow> string option" where
  "string_or_null v = (case v of None \<Rightarrow> None | Some str \<Rightarrow> if str = [] then None else Some str)"

definition number_or_null :: "int option \<Rightarrow> int option" where
  "number_or_null v = (case v of None \<Rightarrow> None | Some n \<Rightarrow> if n = 0 then None else Some n)"

text \<open>\<^verbatim>\<open>settings ? JSON.stringify(settings) : null\<close>.\<close>

definition settings_or_null :: "any option \<Rightarrow> string option" where
  "settings_or_null v =
     (case v of None \<Rightarrow> None | Some Falsy \<Rightarrow> None | Some (Truthy json) \<Rightarrow> Some json)"

text \<open>
  The insert into \<^verbatim>\<open>audio_files\<close>: it fails on the primary key \<^verbatim>\<open>id\<close> and on the foreign
  key \<^verbatim>\<open>userId\<close>; \<^verbatim>\<open>createdAt\<close> gets its default.
\<close>

definition insert_audio :: "string \<Rightarrow> audioData \<Rightarrow> world \<Rightarrow> error + unit \<times> world" where
  "insert_audio audioId audio w =
     (if (case number_or_null (data_fileSize audio) of None \<Rightarrow> False | Some n \<Rightarrow> \<not> int32 n)
      then Inl invalid_parameter
      else if list_ex (\<lambda>a. collation w (audio_id a) audioId) (audio_files w)
      then Inl (Error ''Violation of PRIMARY KEY constraint'')
      else if \<not> list_ex (\<lambda>u. collation w (user_id u) (data_userId audio)) (users w)
      then Inl (Error ''The INSERT statement conflicted with the FOREIGN KEY constraint'')
      else Inr ((), w\<lparr>audio_files := audio_files w @
             [\<lparr>audio_id = audioId, userId = data_userId audio, filename = data_filename audio,
               audio_text = data_text audio,
               voice = string_or_null (data_voice audio),
               settings = settings_or_null (data_settings audio),
               audioUrl = string_or_null (data_audioUrl audio),
               fileSize = number_or_null (data_fileSize audio),
               audio_createdAt = Some (GETDATE w)\<rparr>]\<rparr>))"

text \<open>
  The operation of \<^verbatim>\<open>saveAudioFile\<close>: every attempt builds its id
  \<^verbatim>\<open>audio_${Date.now()}_${Math.random().toString(36).substr(2, 9)}\<close> anew.
\<close>

definition next_audio_id :: "world \<Rightarrow> string" where
  "next_audio_id w =
     ''audio_'' @ decimal (Date_now w) @ ''_'' @ random_suffix w (random_drawn w)"

definition save_audio :: "audioData \<Rightarrow> world \<Rightarrow> (error + string) \<times> world" where
  "save_audio audio w =
     (let audioId = next_audio_id w
      in case query (insert_audio audioId audio) (w\<lparr>random_drawn := Suc (random_drawn w)\<rparr>) of
           (Inl e, w') \<Rightarrow> (Inl e, w')
         | (Inr r, w') \<Rightarrow> (Inr audioId, w'))"

definition saveAudioFile :: "audioData \<Rightarrow> state \<Rightarrow> (error + string) \<times> state" where
  "saveAudioFile audio = withRetry_default (\<lambda>pool. save_audio audio)"

text \<open>
  \<^verbatim>\<open>SELECT TOP (@limit) ... ORDER BY createdAt DESC\<close>: the newest rows of the user first;
  a \<^verbatim>\<open>NULL\<close> date sorts as the oldest.
\<close>

definition created :: "audio_file \<Rightarrow> (int \<times> int \<times> int \<times> int) option" where
  "created a = map_option (\<lambda>d. (year d, month d, day d, time d)) (audio_createdAt a)"

definition select_audio :: "string \<Rightarrow> int \<Rightarrow> world \<Rightarrow> error + audio_file list \<times> world" where
  "select_audio i row_limit w =
     (if \<not> int32 row_limit then Inl invalid_parameter
      else if row_limit < 0 then Inl (Error ''A TOP or FETCH clause contains an invalid value'')
      else Inr (take (nat row_limit)
                  (rev (sort_key created (filter (\<lambda>a. collation w (userId a) i) (audio_files w)))),
                w))"

definition getUserAudioFiles :: "string \<Rightarrow> int \<Rightarrow> state \<Rightarrow> (error + audio_file list) \<times> state" where
  "getUserAudioFiles i row_limit = withRetry_default (\<lambda>pool. query (select_audio i row_limit))"

text \<open>
  The result of \<^verbatim>\<open>getUserDashboard\<close>: the fields of \<^verbatim>\<open>user\<close> (an absent user leaves the
  first three and the date undefined, \<open>None\<close>), the fields of \<^verbatim>\<open>usage\<close>, and the files.
\<close>

record dashboard =
  dashboard_id :: "string option"
  dashboard_email :: "string option"
  dashboard_name :: "string option"
  dashboard_subscriptionStatus :: string
  dashboard_monthlyUsage :: int
  dashboard_usageResetDate :: "timestamp option"
  usage_current :: int
  usage_limit :: jsval
  usage_remaining :: jsval
  recentFiles :: "audio_file list"

definition build_dashboard :: "user option \<Rightarrow> audio_file list \<Rightarrow> dashboard" where
  "build_dashboard found files =
     (let status = (case found of None \<Rightarrow> None | Some u \<Rightarrow> subscriptionStatus u);
          used = (case found of None \<Rightarrow> 0 | Some u \<Rightarrow> or_zero (monthlyUsage u))
      in \<lparr>dashboard_id = map_option user_id found,
          dashboard_email = map_option email found,
          dashboard_name = map_option name found,
          dashboard_subscriptionStatus =
            (case string_or_null status of None \<Rightarrow> ''free'' | Some str \<Rightarrow> str),
          dashboard_monthlyUsage = used,
          dashboard_usageResetDate = (case found of None \<Rightarrow> None | Some u \<Rightarrow> usageResetDate u),
          usage_current = used,
          usage_limit = userLimit status,
          usage_remaining = js_minus (userLimit status) used,
          recentFiles = files\<rparr>)"

definition getUserDashboard :: "string \<Rightarrow> state \<Rightarrow> (error + dashboard) \<times> state" where
  "getUserDashboard i s =
     (case getUserWithSubscription i s of
        (Inl e, s1) \<Rightarrow> (Inl e, s1)
      | (Inr found, s1) \<Rightarrow>
          (case getUserAudioFiles i 5 s1 of
             (Inl e, s2) \<Rightarrow> (Inl e, s2)
           | (Inr files, s2) \<Rightarrow> (Inr (build_dashboard found files), s2)))"

section \<open>Schema creation\<close>

text \<open>
  Both statements of \<^verbatim>\<open>initializeDatabase\<close> create a table only when it is missing; the
  world has both tables, so they change nothing.
\<close>

definition create_if_missing :: "world \<Rightarrow> error + unit \<times> world" where
  "create_if_missing w = Inr ((), w)"

definition create_tables :: "state \<Rightarrow> (error + unit) \<times> state" where
  "create_tables s =
     (case getDbConnection s of
        (Inl e, s1) \<Rightarrow> (Inl e, s1)
      | (Inr p, s1) \<Rightarrow>
          (case query create_if_missing (world s1) of
             (Inl e, w) \<Rightarrow> (Inl e, s1\<lparr>world := w\<rparr>)
           | (Inr r, w) \<Rightarrow>
               (case query create_if_missing w of
                  (Inl e, w') \<Rightarrow> (Inl e, s1\<lparr>world := w'\<rparr>)
                | (Inr r', w') \<Rightarrow> (Inr (), s1\<lparr>world := w'\<rparr>))))"

function initializeDatabase_loop :: "int \<Rightarrow> state \<Rightarrow> (error + unit) \<times> state" where
  "initializeDatabase_loop retryCount s =
     (if retryCount < 3 then
        (case create_tables s of
           (Inr v, s1) \<Rightarrow> (Inr v, s1)
         | (Inl e, s1) \<Rightarrow>
             (if retryCount + 1 \<ge> 3 then (Inl e, s1)
              else initializeDatabase_loop (retryCount + 1)
                     (emit (Slept (1000 * (retryCount + 1))) s1)))
      else (Inr (), s))"
  by pat_completeness auto
termination
  by (relation "measure (\<lambda>(retryCount, s). nat (3 - retryCount))") auto

definition initializeDatabase :: "state \<Rightarrow> (error + unit) \<times> state" where
  "initializeDatabase s = initializeDatabase_loop 0 s"

section \<open>Calls into the module\<close>

text \<open>The exported functions with their arguments, and the state each call leaves.\<close>

datatype call =
    GetDbConnection
  | InitializeDatabase
  | CreateUser string string string string
  | FindUserByEmail string
  | FindUserById string
  | UpdateLoginTracking string
  | GetUserLoginHistory string
  | GetUserWithSubscription string
  | UpdateUserUsage string int
  | CanUserUseCharacters string int
  | ResetMonthlyUsage
  | SaveAudioFile audioData
  | GetUserAudioFiles string int
  | GetUserDashboard string

fun perform :: "call \<Rightarrow> state \<Rightarrow> state" where
  "perform GetDbConnection s = snd (getDbConnection s)"
| "perform InitializeDatabase s = snd (initializeDatabase s)"
| "perform (CreateUser i e n p) s = snd (createUser i e n p s)"
| "perform (FindUserByEmail e) s = snd (findUserByEmail e s)"
| "perform (FindUserById i) s = snd (findUserById i s)"
| "perform (UpdateLoginTracking i) s = snd (updateLoginTracking i s)"
| "perform (GetUserLoginHistory i) s = snd (getUserLoginHistory i s)"
| "perform (GetUserWithSubscription i) s = snd (getUserWithSubscription i s)"
| "perform (UpdateUserUsage i n) s = snd (updateUserUsage i n s)"
| "perform (CanUserUseCharacters i n) s = snd (canUserUseCharacters i n s)"
| "perform ResetMonthlyUsage s = snd (resetMonthlyUsage s)"
| "perform (SaveAudioFile audio) s = snd (saveAudioFile audio s)"
| "perform (GetUserAudioFiles i n) s = snd (getUserAudioFiles i n s)"
| "perform (GetUserDashboard i) s = snd (getUserDashboard i s)"

text \<open>
  Usage has not gone down from one table to a later one: every row of the first is still
  there, at its place and under its id, with a usage that is \<^verbatim>\<open>NULL\<close> as before or at
  least what it was.
\<close>

fun usage_le :: "int option \<Rightarrow> int option \<Rightarrow> bool" where
  "usage_le None None = True"
| "usage_le (Some a) (Some b) = (a \<le> b)"
| "usage_le None (Some b) = False"
| "usage_le (Some a) None = False"

definition usage_kept :: "user list \<Rightarrow> user list \<Rightarrow> bool" where
  "usage_kept before after =
     (length before \<le> length after \<and>
      list_all2 (\<lambda>u v. user_id u = user_id v \<and> usage_le (monthlyUsage u) (monthlyUsage v))
        before (take (length before) after))"

section \<open>The tier limits and the reset period as the specification words them\<close>

text \<open>
  The specification's mapping of tiers to limits: free to 5000, pro to 100000, premium to
  500000, and an unrecognized or missing tier to the free limit.
\<close>

definition spec_limit :: "string option \<Rightarrow> int" where
  "spec_limit status =
     (if status = Some ''free'' then 5000
      else if status = Some ''pro'' then 100000
      else if status = Some ''premium'' then 500000
      else 5000)"

text \<open>A status that is the name of a member inherited from \<^verbatim>\<open>Object.prototype\<close>.\<close>

definition inherited :: "string option \<Rightarrow> bool" where
  "inherited status = (case status of None \<Rightarrow> False | Some key \<Rightarrow> key \<in> set Object_prototype)"


text \<open>
  The specification resets a row when the time elapsed since \<^verbatim>\<open>usageResetDate\<close> is at
  least one calendar month: the same day of the next month (the last day of that month
  when it is shorter), at the same time of day, has been reached.
\<close>

definition leap_year :: "int \<Rightarrow> bool" where
  "leap_year y = (y mod 4 = 0 \<and> (y mod 400 = 0 \<or> y mod 100 \<noteq> 0))"

definition days_in_month :: "int \<Rightarrow> int \<Rightarrow> int" where
  "days_in_month y m =
     (if m = 2 then (if leap_year y then 29 else 28)
      else if m = 4 \<or> m = 6 \<or> m = 9 \<or> m = 11 then 30
      else 31)"

definition one_month_later :: "timestamp \<Rightarrow> timestamp" where
  "one_month_later d =
     (let y = (if month d = 12 then year d + 1 else year d);
          m = (if month d = 12 then 1 else month d + 1)
      in \<lparr>year = y, month = m, day = min (day d) (days_in_month y m), time = time d\<rparr>)"

definition reached :: "timestamp \<Rightarrow> timestamp \<Rightarrow> bool" where
  "reached d now = ((year d, month d, day d, time d) \<le> (year now, month now, day now, time now))"

definition month_elapsed :: "timestamp \<Rightarrow> timestamp \<Rightarrow> bool" where
  "month_elapsed since now = reached (one_month_later since) now"

section \<open>Worlds and operations to run the module on\<close>

text \<open>The state in which the process starts: no pool yet, nothing done.\<close>

definition start :: "world \<Rightarrow> state" where
  "start w = \<lparr>pool = None, world = w, trace = []\<rparr>"

text \<open>
  An empty database whose driver never fails, on 14 February 2024, comparing strings
  character by character.
\<close>

definition quiet_world :: world where
  "quiet_world =
     \<lparr>users = [], audio_files = [],
      GETDATE = \<lparr>year = 2024, month = 2, day = 14, time = 0\<rparr>,
      collation = (=), connect_results = [], query_results = [],
      Date_now = 1707868800000, random_suffix = (\<lambda>n. ''k3x9q2m1z''), random_drawn = 0\<rparr>"


text \<open>The same with a driver whose next query is a deadlock victim and whose second times out.\<close>

definition deadlock_world :: world where
  "deadlock_world = quiet_world\<lparr>query_results :=
     [Some (Error ''Transaction was deadlocked''),
      Some (Error ''TimeoutError: Request failed to complete in 30000ms''), None]\<rparr>"

text \<open>An operation for \<^verbatim>\<open>withRetry\<close>: count the rows of \<^verbatim>\<open>users\<close>.\<close>

definition count_users :: "ConnectionPool \<Rightarrow> world \<Rightarrow> (error + nat) \<times> world" where
  "count_users p = query (\<lambda>w. Inr (length (users w), w))"

text \<open>A user row as \<^verbatim>\<open>createUser\<close> leaves it, with a given tier, usage and reset date.\<close>

definition member_row :: "string \<Rightarrow> string option \<Rightarrow> int option \<Rightarrow> timestamp option \<Rightarrow> user" where
  "member_row i status used since =
     \<lparr>user_id = i, email = i @ ''@example.com'', name = ''Ada'', password = ''$2b$10$hash'',
      createdAt = since, updatedAt = since, last_login_at = None, login_count = Some 0,
      subscriptionStatus = status, monthlyUsage = used, usageResetDate = since\<rparr>"

text \<open>A clip with file size 0 and the empty voice, and three users on their reset dates.\<close>

definition silent_clip :: audioData where
  "silent_clip =
     \<lparr>data_userId = ''u1'', data_filename = ''tts_1707868800000.mp3'', data_text = ''Hello'',
      data_voice = Some [], data_settings = Some (Truthy ''{}''), data_audioUrl = None,
      data_fileSize = Some 0\<rparr>"

definition three_members :: "user list" where
  "three_members =
     [member_row ''u1'' (Some ''free'') (Some 1200)
        (Some \<lparr>year = 2024, month = 1, day = 14, time = 0\<rparr>),
      member_row ''u2'' (Some ''pro'') (Some 800)
        (Some \<lparr>year = 2024, month = 1, day = 15, time = 0\<rparr>),
      member_row ''u3'' (Some ''free'') (Some 300)
        (Some \<lparr>year = 2024, month = 2, day = 1, time = 0\<rparr>)]"


section \<open>Properties of the retry wrapper\<close>

lemma outcomes_append: "outcomes (xs @ ys) = outcomes xs @ outcomes ys"
  by (induction xs rule: outcomes.induct) auto

lemma discards_append: "discards (xs @ ys) = discards xs + discards ys"
  by (induction xs) (auto simp: discards_def)

lemma connect_healthy: "connect_results w = [] \<Longrightarrow> connect w = (None, w)"
  by (simp add: connect_def)

lemma getDbConnection_healthy:
  "connect_results (world s) = [] \<Longrightarrow> \<exists>p. getDbConnection s = (Inr p, s\<lparr>pool := Some p\<rparr>)"
  by (simp add: getDbConnection_def connect_healthy Let_def split: option.splits)

lemma attempt_healthy:
  assumes "connect_results (world s) = []"
  shows "\<exists>p. attempt operation s =
           (case operation p (world s) of
              (Inl e, w) \<Rightarrow> (Inl e, s\<lparr>pool := Some p, world := w, trace := trace s @ [Ran (Some e)]\<rparr>)
            | (Inr v, w) \<Rightarrow> (Inr v, s\<lparr>pool := Some p, world := w, trace := trace s @ [Ran None]\<rparr>))"
proof -
  from getDbConnection_healthy [OF assms] obtain p
    where "getDbConnection s = (Inr p, s\<lparr>pool := Some p\<rparr>)" ..
  then show ?thesis
    by (intro exI [of _ p]) (simp add: attempt_def emit_def split: prod.splits sum.splits)
qed

lemma reset_pool_on_world [simp]: "world (reset_pool_on e s) = world s"
  by (simp add: reset_pool_on_def emit_def)

lemma reset_pool_on_trace:
  "trace (reset_pool_on e s) = trace s @ (if transient e then [Discarded] else [])"
  by (simp add: reset_pool_on_def emit_def)

lemma emit_world [simp]: "world (emit ev s) = world s"
  by (simp add: emit_def)

lemma emit_trace [simp]: "trace (emit ev s) = trace s @ [ev]"
  by (simp add: emit_def)

declare withRetry_loop.simps [simp del]

lemma withRetry_loop_returns:
  "n \<le> m \<Longrightarrow> attempt operation s = (Inr v, s1) \<Longrightarrow>
   withRetry_loop operation m n s = (Inr v, s1)"
  by (subst withRetry_loop.simps) simp


lemma withRetry_loop_retries:
  "n + 1 \<le> m \<Longrightarrow> attempt operation s = (Inl e, s1) \<Longrightarrow>
   withRetry_loop operation m n s =
     withRetry_loop operation m (n + 1) (emit (Slept (500 * (n + 1))) (reset_pool_on e s1))"
  by (subst withRetry_loop.simps) simp

lemma attempt_fails:
  assumes "connect_results (world s) = []" and "\<And>p. operation p (world s) = (Inl e, w)"
  shows "\<exists>s1. attempt operation s = (Inl e, s1) \<and> world s1 = w \<and>
           trace s1 = trace s @ [Ran (Some e)]"
  using attempt_healthy [OF assms(1), of operation] assms(2) by auto

lemma attempt_succeeds:
  assumes "connect_results (world s) = []" and "\<And>p. operation p (world s) = (Inr v, w)"
  shows "\<exists>s1. attempt operation s = (Inr v, s1) \<and> world s1 = w \<and>
           trace s1 = trace s @ [Ran None]"
  using attempt_healthy [OF assms(1), of operation] assms(2) by auto







text \<open>
  Claim C1 fails. An error that is not classified as transient (here a unique-constraint
  violation) is not propagated at its first occurrence: the operation is called three
  times before \<^verbatim>\<open>withRetry\<close> gives up.
\<close>

theorem withRetry_propagation_counterexample:
  "\<not> transient (Error ''Violation of UNIQUE KEY constraint'') \<and>
   outcomes (trace (snd (withRetry_default
     (\<lambda>p w. (Inl (Error ''Violation of UNIQUE KEY constraint'') :: error + unit, w))
     (start quiet_world)))) =
   [Some (Error ''Violation of UNIQUE KEY constraint''),
    Some (Error ''Violation of UNIQUE KEY constraint''),
    Some (Error ''Violation of UNIQUE KEY constraint'')]"
  by (simp add: withRetry_def withRetry_loop.simps attempt_def getDbConnection_def connect_def
      start_def quiet_world_def emit_def reset_pool_on_def Let_def)

lemma upt_step: "j < k \<Longrightarrow> [j..<k] = j # [Suc j..<k]"
  by (rule upt_conv_Cons)

lemma withRetry_loop_absorbs:
  assumes conn: "\<And>i. i \<le> k \<Longrightarrow> connect_results (ws i) = []"
    and fails: "\<And>i p. i < k \<Longrightarrow> operation p (ws i) = (Inl (es i), ws (Suc i))"
    and succeeds: "\<And>p. operation p (ws k) = (Inr v, w')"
    and bound: "int k \<le> maxRetries"
  shows "j \<le> k \<Longrightarrow> world s = ws j \<Longrightarrow>
    \<exists>s' evs. withRetry_loop operation maxRetries (int j) s = (Inr v, s') \<and> world s' = w' \<and>
       trace s' = trace s @ evs \<and>
       outcomes evs = map (\<lambda>i. Some (es i)) [j..<k] @ [None] \<and>
       discards evs = length (filter (\<lambda>i. transient (es i)) [j..<k])"
proof (induction "k - j" arbitrary: j s)
  case 0
  then have jk: "j = k" by simp
  have "\<exists>s1. attempt operation s = (Inr v, s1) \<and> world s1 = w' \<and>
           trace s1 = trace s @ [Ran None]"
    using conn [of k] succeeds "0.prems"(2) jk by (intro attempt_succeeds) simp_all
  then obtain s1 where a: "attempt operation s = (Inr v, s1)" and w: "world s1 = w'"
    and t: "trace s1 = trace s @ [Ran None]" by blast
  have "withRetry_loop operation maxRetries (int j) s = (Inr v, s1)"
    using bound jk by (intro withRetry_loop_returns [OF _ a]) simp
  moreover have "outcomes [Ran None] = map (\<lambda>i. Some (es i)) [j..<k] @ [None]"
    "discards [Ran None] = length (filter (\<lambda>i. transient (es i)) [j..<k])"
    using jk by (simp_all add: discards_def)
  ultimately show ?case using w t by blast
next
  case (Suc d)
  then have jk: "j < k" and d: "d = k - Suc j" and le: "Suc j \<le> k" by simp_all
  have "\<exists>s1. attempt operation s = (Inl (es j), s1) \<and> world s1 = ws (Suc j) \<and>
           trace s1 = trace s @ [Ran (Some (es j))]"
    using conn [of j] fails [OF jk] Suc.prems(2) jk by (intro attempt_fails) simp_all
  then obtain s1 where a: "attempt operation s = (Inl (es j), s1)"
    and w1: "world s1 = ws (Suc j)" and t1: "trace s1 = trace s @ [Ran (Some (es j))]"
    by blast
  let ?s2 = "emit (Slept (500 * (int j + 1))) (reset_pool_on (es j) s1)"
  have w2: "world ?s2 = ws (Suc j)" using w1 by simp
  from Suc.hyps(1) [OF d le w2] obtain s' evs where
    r: "withRetry_loop operation maxRetries (int (Suc j)) ?s2 = (Inr v, s')"
    and w': "world s' = w'" and t': "trace s' = trace ?s2 @ evs"
    and o: "outcomes evs = map (\<lambda>i. Some (es i)) [Suc j..<k] @ [None]"
    and c: "discards evs = length (filter (\<lambda>i. transient (es i)) [Suc j..<k])"
    by blast
  let ?evs = "Ran (Some (es j)) # (if transient (es j) then [Discarded] else []) @
      [Slept (500 * (int j + 1))] @ evs"
  have "withRetry_loop operation maxRetries (int j) s =
      withRetry_loop operation maxRetries (int j + 1) ?s2"
    using bound jk by (intro withRetry_loop_retries [OF _ a]) simp
  then have "withRetry_loop operation maxRetries (int j) s = (Inr v, s')"
    using r by (simp add: add.commute)
  moreover have "trace s' = trace s @ ?evs"
    using t' t1 by (simp add: reset_pool_on_trace)
  moreover have "outcomes ?evs = map (\<lambda>i. Some (es i)) [j..<k] @ [None]"
    using o by (simp add: upt_step [OF jk] outcomes_append)
  moreover have "discards ?evs = length (filter (\<lambda>i. transient (es i)) [j..<k])"
    using c by (simp add: upt_step [OF jk] discards_append) (simp add: discards_def)
  ultimately show ?case using w' by blast
qed

text \<open>
  Claim C1 as amended. \<^verbatim>\<open>withRetry\<close> absorbs every failure among its first \<open>maxRetries\<close>
  attempts, whatever its classification, and calls the operation again: after \<open>k\<close>
  failed calls with errors \<open>es 0\<close>, ..., \<open>es (k - 1)\<close>, \<open>k \<le> maxRetries\<close>, and a call that
  succeeds, it returns the value of that call. The classification decides only how often
  the pool singleton is discarded: once for each of the errors that is transient.
\<close>

theorem withRetry_absorbs_any_failure:
  assumes "int k \<le> maxRetries"
    and "world s = ws 0"
    and "\<And>i. i \<le> k \<Longrightarrow> connect_results (ws i) = []"
    and "\<And>i p. i < k \<Longrightarrow> operation p (ws i) = (Inl (es i), ws (Suc i))"
    and "\<And>p. operation p (ws k) = (Inr v, w')"
  shows "\<exists>s' evs. withRetry operation maxRetries s = (Inr v, s') \<and> world s' = w' \<and>
           trace s' = trace s @ evs \<and>
           outcomes evs = map (\<lambda>i. Some (es i)) [0..<k] @ [None] \<and>
           discards evs = length (filter (\<lambda>i. transient (es i)) [0..<k])"
proof -
  have "\<exists>s' evs. withRetry_loop operation maxRetries (int 0) s = (Inr v, s') \<and> world s' = w' \<and>
       trace s' = trace s @ evs \<and>
       outcomes evs = map (\<lambda>i. Some (es i)) [0..<k] @ [None] \<and>
       discards evs = length (filter (\<lambda>i. transient (es i)) [0..<k])"
    by (rule withRetry_loop_absorbs [where j = 0 and s = s, OF assms(3,4,5,1) le0 assms(2)])
  then show ?thesis by (simp add: withRetry_def)
qed


text \<open>
  Claim C1 as amended, for a query that is chosen as a deadlock victim, then times out,
  then is answered: the deadlock error is not classified as transient and is retried all
  the same; only the timeout discards the pool.
\<close>

theorem withRetry_absorbs_any_failure_witness:
  "\<exists>s' evs. withRetry_default count_users (start deadlock_world) = (Inr 0, s') \<and>
     world s' = quiet_world \<and>
     trace s' = trace (start deadlock_world) @ evs \<and>
     outcomes evs =
       [Some (Error ''Transaction was deadlocked''),
        Some (Error ''TimeoutError: Request failed to complete in 30000ms''), None] \<and>
     discards evs = 1"
proof -
  let ?e0 = "Error ''Transaction was deadlocked''"
  let ?e1 = "Error ''TimeoutError: Request failed to complete in 30000ms''"
  let ?ws = "\<lambda>i. quiet_world\<lparr>query_results := drop i [Some ?e0, Some ?e1, None]\<rparr>"
  let ?es = "\<lambda>i. if i = 0 then ?e0 else ?e1"
  have two: "i = 0 \<or> i = 1" if "i < 2" for i :: nat
    using that by auto
  have c: "connect_results (?ws i) = []" for i
    by (simp add: quiet_world_def)
  have f: "count_users p (?ws i) = (Inl (?es i), ?ws (Suc i))" if "i < 2" for i p
    using two [OF that] by (auto simp: count_users_def query_def)
  have g: "count_users p (?ws 2) = (Inr 0, quiet_world)" for p
    by (simp add: count_users_def query_def run_statement_def quiet_world_def)
  have w: "world (start deadlock_world) = ?ws 0"
    by (simp add: start_def deadlock_world_def)
  have m: "int 2 \<le> 2" by simp
  from withRetry_absorbs_any_failure [of 2 2 "start deadlock_world" ?ws count_users ?es 0
      quiet_world, OF m w c f g]
  obtain s' evs where r: "withRetry_default count_users (start deadlock_world) = (Inr 0, s')"
    and w': "world s' = quiet_world"
    and t: "trace s' = trace (start deadlock_world) @ evs"
    and o: "outcomes evs = map (\<lambda>i. Some (?es i)) [0..<2] @ [None]"
    and d: "discards evs = length (filter (\<lambda>i. transient (?es i)) [0..<2])"
    by blast
  have "[0..<2] = [0, Suc 0]"
    by (simp add: upt_rec)
  with o d have "outcomes evs = [Some ?e0, Some ?e1, None]" "discards evs = 1"
    by simp_all
  with r w' t show ?thesis by blast
qed

section \<open>Properties of the usage quota\<close>

lemma first_or_null_filter: "first_or_null (filter P xs) = find P xs"
  by (induction xs) auto

lemma query_healthy: "query_results w = [] \<Longrightarrow> query statement w = run_statement statement w"
  by (simp add: query_def)

lemma withRetry_first_attempt:
  assumes "connect_results (world s) = []" and "\<And>p. operation p (world s) = (Inr v, w)"
  shows "\<exists>s'. withRetry_default operation s = (Inr v, s') \<and> world s' = w \<and>
           trace s' = trace s @ [Ran None]"
proof -
  from attempt_succeeds [of s operation v w, OF assms] obtain s1 where
    a: "attempt operation s = (Inr v, s1)" and "world s1 = w" "trace s1 = trace s @ [Ran None]"
    by blast
  moreover have "withRetry_loop operation 2 0 s = (Inr v, s1)"
    by (rule withRetry_loop_returns [OF _ a]) simp
  ultimately show ?thesis by (simp add: withRetry_def)
qed

lemma select_by_id_healthy:
  assumes "connect_results (world s) = []" and "query_results (world s) = []"
  shows "\<exists>s'. withRetry_default (\<lambda>pool w. first_row (query (select_by_id i) w)) s =
           (Inr (find (\<lambda>u. collation (world s) (user_id u) i) (users (world s))), s') \<and>
           world s' = world s \<and> trace s' = trace s @ [Ran None]"
  by (rule withRetry_first_attempt [OF assms(1)])
    (simp add: assms(2) query_healthy run_statement_def select_by_id_def first_row_def
      first_or_null_filter)

lemma canUserUseCharacters_healthy:
  assumes "connect_results (world s) = []" and "query_results (world s) = []"
  shows "fst (canUserUseCharacters i n s) =
     (case find (\<lambda>u. collation (world s) (user_id u) i) (users (world s)) of
        None \<Rightarrow> Inr \<lparr>canUse = False, currentUsage = Some 0, limit = Number 0\<rparr>
      | Some u \<Rightarrow>
          Inr \<lparr>canUse = js_le (or_zero (monthlyUsage u) + n) (userLimit (subscriptionStatus u)),
               currentUsage = monthlyUsage u, limit = userLimit (subscriptionStatus u)\<rparr>)"
proof -
  from select_by_id_healthy [OF assms, of i] obtain s' where
    "getUserWithSubscription i s =
       (Inr (find (\<lambda>u. collation (world s) (user_id u) i) (users (world s))), s')"
    unfolding getUserWithSubscription_def by blast
  then show ?thesis
    by (simp add: canUserUseCharacters_def split: option.splits)
qed

lemma find_None_list_ex: "find P xs = None \<longleftrightarrow> \<not> list_ex P xs"
  by (induction xs) auto

text \<open>
  Claim C5. When the database answers and no stored user matches the id,
  \<^verbatim>\<open>canUserUseCharacters\<close> does not throw: it returns \<^verbatim>\<open>{canUse: false, currentUsage: 0,
  limit: 0}\<close>, whatever the number of characters asked for.
\<close>

theorem canUserUseCharacters_unknown_user:
  assumes "connect_results (world s) = []" and "query_results (world s) = []"
    and "\<not> list_ex (\<lambda>u. collation (world s) (user_id u) uid) (users (world s))"
  shows "fst (canUserUseCharacters uid charactersNeeded s) =
           Inr \<lparr>canUse = False, currentUsage = Some 0, limit = Number 0\<rparr>"
  using assms(3) canUserUseCharacters_healthy [OF assms(1,2), of uid charactersNeeded]
  by (simp add: find_None_list_ex [symmetric])

text \<open>
  Claim C5 for an id that the one stored user does not have.
\<close>

theorem canUserUseCharacters_unknown_user_witness:
  "fst (canUserUseCharacters ''nobody'' 12
     (start (quiet_world\<lparr>users := [member_row ''u1'' (Some ''free'') (Some 0) None]\<rparr>))) =
   Inr \<lparr>canUse = False, currentUsage = Some 0, limit = Number 0\<rparr>"
  using canUserUseCharacters_unknown_user [of
      "start (quiet_world\<lparr>users := [member_row ''u1'' (Some ''free'') (Some 0) None]\<rparr>)"
      "''nobody''" 12]
  by (simp add: start_def quiet_world_def member_row_def)

lemma userLimit_spec:
  "\<not> inherited status \<Longrightarrow> userLimit status = Number (spec_limit status)"
  by (auto simp: inherited_def userLimit_def limits_def spec_limit_def split: option.splits)

text \<open>
  Claim C3 fails on the code. A stored tier that is not one of the three is not always
  given the free limit: for the tier \<^verbatim>\<open>constructor\<close> the lookup \<^verbatim>\<open>limits[...]\<close> finds the
  member inherited from \<^verbatim>\<open>Object.prototype\<close>, which is truthy, so \<^verbatim>\<open>|| 5000\<close> does not
  apply, and the comparison with it is false. At usage 4999 and one character needed the
  result is \<^verbatim>\<open>canUse = false\<close> with that member as the limit, where the claim has the limit
  5000 and \<open>4999 + 1 \<le> 5000\<close>.
\<close>

theorem canUserUseCharacters_inherited_tier:
  "fst (canUserUseCharacters ''u1'' 1
     (start (quiet_world\<lparr>users := [member_row ''u1'' (Some ''constructor'') (Some 4999) None]\<rparr>))) =
   Inr \<lparr>canUse = False, currentUsage = Some 4999, limit = Member ''constructor''\<rparr> \<and>
   4999 + 1 \<le> spec_limit (Some ''constructor'')"
proof -
  let ?s = "start (quiet_world\<lparr>users := [member_row ''u1'' (Some ''constructor'') (Some 4999) None]\<rparr>)"
  have "connect_results (world ?s) = []" "query_results (world ?s) = []"
    by (simp_all add: start_def quiet_world_def)
  from canUserUseCharacters_healthy [OF this, of "''u1''" 1] show ?thesis
    by (simp add: start_def quiet_world_def member_row_def userLimit_def limits_def
        Object_prototype_def or_zero_def spec_limit_def)
qed

text \<open>
  Claim C3 on every other tier. When the database answers and the user exists with a tier
  that is not the name of a member inherited from \<^verbatim>\<open>Object.prototype\<close>, the result is
  \<open>canUse = (monthlyUsage + charactersNeeded \<le> limit)\<close> with the stored usage and the
  limit of the specification's mapping: 5000, 100000 and 500000 for free, pro and
  premium, 5000 for any other or a missing tier. (A \<^verbatim>\<open>NULL\<close> usage adds as 0.)
\<close>

theorem canUserUseCharacters_quota:
  assumes "connect_results (world s) = []" and "query_results (world s) = []"
    and "find (\<lambda>u. collation (world s) (user_id u) uid) (users (world s)) = Some u"
    and "\<not> inherited (subscriptionStatus u)"
  shows "fst (canUserUseCharacters uid charactersNeeded s) =
           Inr \<lparr>canUse = (or_zero (monthlyUsage u) + charactersNeeded
                           \<le> spec_limit (subscriptionStatus u)),
                currentUsage = monthlyUsage u,
                limit = Number (spec_limit (subscriptionStatus u))\<rparr>"
  using canUserUseCharacters_healthy [OF assms(1,2), of uid charactersNeeded]
  by (simp add: assms(3) userLimit_spec [OF assms(4)])

text \<open>
  Claim C3 at its example: a free-tier user at usage 4999 may use one more character and
  not two.
\<close>

theorem canUserUseCharacters_quota_witness:
  "fst (canUserUseCharacters ''u1'' 2
     (start (quiet_world\<lparr>users := [member_row ''u1'' (Some ''free'') (Some 4999) None]\<rparr>))) =
   Inr \<lparr>canUse = False, currentUsage = Some 4999, limit = Number 5000\<rparr> \<and>
   fst (canUserUseCharacters ''u1'' 1
     (start (quiet_world\<lparr>users := [member_row ''u1'' (Some ''free'') (Some 4999) None]\<rparr>))) =
   Inr \<lparr>canUse = True, currentUsage = Some 4999, limit = Number 5000\<rparr>"
  using canUserUseCharacters_quota [of
      "start (quiet_world\<lparr>users := [member_row ''u1'' (Some ''free'') (Some 4999) None]\<rparr>)"
      "''u1''" "member_row ''u1'' (Some ''free'') (Some 4999) None" 2]
    canUserUseCharacters_quota [of
      "start (quiet_world\<lparr>users := [member_row ''u1'' (Some ''free'') (Some 4999) None]\<rparr>)"
      "''u1''" "member_row ''u1'' (Some ''free'') (Some 4999) None" 1]
  by (simp add: start_def quiet_world_def member_row_def inherited_def Object_prototype_def
      or_zero_def spec_limit_def)

section \<open>Properties of the dashboard, the audio files and the email lookup\<close>





lemma saveAudioFile_healthy:
  assumes "connect_results (world s) = []" and "query_results (world s) = []"
    and "insert_audio (next_audio_id (world s)) audio
           ((world s)\<lparr>random_drawn := Suc (random_drawn (world s))\<rparr>) = Inr ((), w)"
  shows "\<exists>s'. saveAudioFile audio s = (Inr (next_audio_id (world s)), s') \<and> world s' = w"
proof -
  have "\<exists>s'. withRetry_default (\<lambda>pool. save_audio audio) s =
      (Inr (next_audio_id (world s)), s') \<and> world s' = w \<and> trace s' = trace s @ [Ran None]"
    by (rule withRetry_first_attempt [OF assms(1)])
      (simp add: save_audio_def assms(2,3) query_healthy run_statement_def)
  then show ?thesis
    unfolding saveAudioFile_def by blast
qed

text \<open>
  Claim C9. When the insert goes through (the database answers, the user exists, the new
  id is not taken, the file size fits an \<^verbatim>\<open>INT\<close>), \<^verbatim>\<open>saveAudioFile\<close> returns the generated id
  and has stored one row under it, in which a file size of 0 and an empty voice have
  become \<^verbatim>\<open>NULL\<close>.
\<close>

theorem saveAudioFile_falsy_fields:
  assumes "connect_results (world s) = []" and "query_results (world s) = []"
    and "list_ex (\<lambda>u. collation (world s) (user_id u) (data_userId audio)) (users (world s))"
    and "\<not> list_ex (\<lambda>a. collation (world s) (audio_id a) (next_audio_id (world s)))
             (audio_files (world s))"
    and "\<And>n. data_fileSize audio = Some n \<Longrightarrow> int32 n"
  shows "\<exists>row s'. saveAudioFile audio s = (Inr (audio_id row), s') \<and>
           audio_files (world s') = audio_files (world s) @ [row] \<and>
           audio_id row = next_audio_id (world s) \<and>
           (data_fileSize audio = Some 0 \<longrightarrow> fileSize row = None) \<and>
           (data_voice audio = Some [] \<longrightarrow> voice row = None)"
proof -
  let ?w = "(world s)\<lparr>random_drawn := Suc (random_drawn (world s))\<rparr>"
  let ?row = "\<lparr>audio_id = next_audio_id (world s), userId = data_userId audio,
      filename = data_filename audio, audio_text = data_text audio,
      voice = string_or_null (data_voice audio),
      settings = settings_or_null (data_settings audio),
      audioUrl = string_or_null (data_audioUrl audio),
      fileSize = number_or_null (data_fileSize audio),
      audio_createdAt = Some (GETDATE (world s))\<rparr>"
  have size: "\<not> (case number_or_null (data_fileSize audio) of None \<Rightarrow> False | Some n \<Rightarrow> \<not> int32 n)"
    using assms(5) by (auto simp: number_or_null_def split: option.splits if_splits)
  have ins: "insert_audio (next_audio_id (world s)) audio ?w =
      Inr ((), ?w\<lparr>audio_files := audio_files (world s) @ [?row]\<rparr>)"
    using size assms(3,4) by (simp add: insert_audio_def)
  from saveAudioFile_healthy [OF assms(1,2) ins] obtain s' where
    r: "saveAudioFile audio s = (Inr (next_audio_id (world s)), s')"
    and w: "world s' = ?w\<lparr>audio_files := audio_files (world s) @ [?row]\<rparr>"
    by blast
  show ?thesis
    by (rule exI [of _ ?row], rule exI [of _ s'])
      (simp add: r w number_or_null_def string_or_null_def)
qed

text \<open>
  Claim C9 for a clip with file size 0 and the empty voice.
\<close>

theorem saveAudioFile_falsy_fields_witness:
  "\<exists>row s'. saveAudioFile silent_clip
       (start (quiet_world\<lparr>users := [member_row ''u1'' (Some ''free'') (Some 0) None]\<rparr>)) =
       (Inr (audio_id row), s') \<and>
     audio_files (world s') = [row] \<and> fileSize row = None \<and> voice row = None"
proof -
  let ?s = "start (quiet_world\<lparr>users := [member_row ''u1'' (Some ''free'') (Some 0) None]\<rparr>)"
  have "\<exists>row s'. saveAudioFile silent_clip ?s = (Inr (audio_id row), s') \<and>
           audio_files (world s') = audio_files (world ?s) @ [row] \<and>
           audio_id row = next_audio_id (world ?s) \<and>
           (data_fileSize silent_clip = Some 0 \<longrightarrow> fileSize row = None) \<and>
           (data_voice silent_clip = Some [] \<longrightarrow> voice row = None)"
    by (rule saveAudioFile_falsy_fields)
      (simp_all add: start_def quiet_world_def member_row_def silent_clip_def int32_def)
  then show ?thesis
    by (auto simp: start_def quiet_world_def silent_clip_def)
qed

lemma createUser_healthy:
  assumes "connect_results (world s) = []" and "query_results (world s) = []"
    and "insert_user i e n p (world s) = Inr ((), w)"
  shows "\<exists>s'. createUser i e n p s = (Inr (), s') \<and> world s' = w"
proof -
  have "\<exists>s'. withRetry_default (\<lambda>pool. query (insert_user i e n p)) s = (Inr (), s') \<and>
      world s' = w \<and> trace s' = trace s @ [Ran None]"
    by (rule withRetry_first_attempt [OF assms(1)])
      (simp add: assms(2,3) query_healthy run_statement_def)
  then show ?thesis
    unfolding createUser_def by blast
qed

lemma findUserByEmail_healthy:
  assumes "connect_results (world s) = []" and "query_results (world s) = []"
  shows "fst (findUserByEmail e s) =
           Inr (find (\<lambda>u. collation (world s) (email u) (toLowerCase e)) (users (world s)))"
proof -
  have "\<exists>s'. withRetry_default (\<lambda>pool w. first_row (query (select_by_email (toLowerCase e)) w)) s =
           (Inr (find (\<lambda>u. collation (world s) (email u) (toLowerCase e)) (users (world s))), s') \<and>
           world s' = world s \<and> trace s' = trace s @ [Ran None]"
    by (rule withRetry_first_attempt [OF assms(1)])
      (simp add: assms(2) query_healthy run_statement_def select_by_email_def first_row_def
        first_or_null_filter)
  then show ?thesis
    unfolding findUserByEmail_def by auto
qed

lemma toLowerCase_example: "toLowerCase ''A@b.COM'' = ''a@b.com''"
  by (simp add: toLowerCase_def)

text \<open>
  Claim C6 fails on the code. \<^verbatim>\<open>createUser\<close> stores the email as it is given, and
  \<^verbatim>\<open>findUserByEmail\<close> looks for the lower-cased one: where the database compares strings
  character by character, the user created as \<^verbatim>\<open>a@B.com\<close> is not found as \<^verbatim>\<open>A@b.COM\<close>.
\<close>

theorem createUser_findUserByEmail_mixed_case:
  "map email (users (world (snd (createUser ''u1'' ''a@B.com'' ''Ada'' ''$2b$10$hash''
      (start quiet_world))))) = [''a@B.com''] \<and>
   fst (findUserByEmail ''A@b.COM''
     (snd (createUser ''u1'' ''a@B.com'' ''Ada'' ''$2b$10$hash'' (start quiet_world)))) = Inr None"
proof -
  let ?row = "\<lparr>user_id = ''u1'', email = ''a@B.com'', name = ''Ada'', password = ''$2b$10$hash'',
               createdAt = Some (GETDATE quiet_world), updatedAt = Some (GETDATE quiet_world),
               last_login_at = None, login_count = Some 0,
               subscriptionStatus = Some ''free'', monthlyUsage = Some 0,
               usageResetDate = Some (GETDATE quiet_world)\<rparr>"
  have "insert_user ''u1'' ''a@B.com'' ''Ada'' ''$2b$10$hash'' (world (start quiet_world)) =
      Inr ((), quiet_world\<lparr>users := [?row]\<rparr>)"
    by (simp add: insert_user_def start_def quiet_world_def)
  from createUser_healthy [OF _ _ this] obtain s' where
    c: "createUser ''u1'' ''a@B.com'' ''Ada'' ''$2b$10$hash'' (start quiet_world) = (Inr (), s')"
    and w: "world s' = quiet_world\<lparr>users := [?row]\<rparr>"
    by (auto simp: start_def quiet_world_def)
  have h: "connect_results (world s') = []" "query_results (world s') = []"
    by (simp_all add: w quiet_world_def)
  have "fst (findUserByEmail ''A@b.COM'' s') = Inr None"
    by (simp add: findUserByEmail_healthy [OF h] w toLowerCase_example) (simp add: quiet_world_def)
  then show ?thesis
    by (simp add: c w)
qed

section \<open>Properties of the monthly reset\<close>

lemma resetMonthlyUsage_healthy:
  assumes "connect_results (world s) = []" and "query_results (world s) = []"
  shows "\<exists>s'. resetMonthlyUsage s = (Inr (), s') \<and>
           users (world s') =
             map (\<lambda>u. if due (GETDATE (world s)) u
                       then u\<lparr>monthlyUsage := Some 0, usageResetDate := Some (GETDATE (world s))\<rparr>
                       else u) (users (world s))"
proof -
  let ?w = "(world s)\<lparr>users :=
       map (\<lambda>u. if due (GETDATE (world s)) u
                 then u\<lparr>monthlyUsage := Some 0, usageResetDate := Some (GETDATE (world s))\<rparr>
                 else u) (users (world s))\<rparr>"
  have "\<exists>s'. withRetry_default (\<lambda>pool. query reset_usage) s = (Inr (), s') \<and>
      world s' = ?w \<and> trace s' = trace s @ [Ran None]"
    by (rule withRetry_first_attempt [OF assms(1)])
      (simp add: assms(2) query_healthy run_statement_def reset_usage_def)
  then obtain s' where "resetMonthlyUsage s = (Inr (), s')" and "world s' = ?w"
    unfolding resetMonthlyUsage_def by blast
  then show ?thesis by simp
qed

text \<open>
  Claim C4 fails. On 14 February a row last reset on 15 January is one day short of a
  calendar month, and \<^verbatim>\<open>resetMonthlyUsage\<close> resets it all the same: \<^verbatim>\<open>DATEDIFF(month, ...)\<close>
  counts the month boundary between the two dates.
\<close>

theorem resetMonthlyUsage_day_short_counterexample:
  "\<not> month_elapsed \<lparr>year = 2024, month = 1, day = 15, time = 0\<rparr> (GETDATE quiet_world) \<and>
   map monthlyUsage (users (world (snd (resetMonthlyUsage
     (start (quiet_world\<lparr>users :=
        [member_row ''u1'' (Some ''free'') (Some 1200)
           (Some \<lparr>year = 2024, month = 1, day = 15, time = 0\<rparr>)]\<rparr>)))))) = [Some 0]"
proof -
  let ?s = "start (quiet_world\<lparr>users :=
        [member_row ''u1'' (Some ''free'') (Some 1200)
           (Some \<lparr>year = 2024, month = 1, day = 15, time = 0\<rparr>)]\<rparr>)"
  have "connect_results (world ?s) = []" "query_results (world ?s) = []"
    by (simp_all add: start_def quiet_world_def)
  from resetMonthlyUsage_healthy [OF this] obtain s' where
    "resetMonthlyUsage ?s = (Inr (), s')"
    and "users (world s') =
             map (\<lambda>u. if due (GETDATE (world ?s)) u
                       then u\<lparr>monthlyUsage := Some 0, usageResetDate := Some (GETDATE (world ?s))\<rparr>
                       else u) (users (world ?s))"
    by blast
  then have "map monthlyUsage (users (world (snd (resetMonthlyUsage ?s)))) = [Some 0]"
    by (simp add: start_def quiet_world_def member_row_def due_def DATEDIFF_month_def)
  moreover have
    "\<not> month_elapsed \<lparr>year = 2024, month = 1, day = 15, time = 0\<rparr> (GETDATE quiet_world)"
    by (simp add: month_elapsed_def one_month_later_def reached_def days_in_month_def
        leap_year_def quiet_world_def Let_def less_eq_prod_def)
  ultimately show ?thesis by simp
qed

text \<open>
  Claim C4 as amended. When the database answers, \<^verbatim>\<open>resetMonthlyUsage\<close> zeroes the usage
  and restamps the reset date to now in exactly the rows whose reset date lies in an
  earlier calendar month than now, and leaves every other row, and every other field of
  the rows it resets, as they were. A row without a reset date is never reset.
\<close>

theorem resetMonthlyUsage_month_boundary:
  assumes "connect_results (world s) = []" and "query_results (world s) = []"
    and "now = GETDATE (world s)"
  shows "\<exists>s'. resetMonthlyUsage s = (Inr (), s') \<and>
           users (world s') =
             map (\<lambda>u. case usageResetDate u of
                         None \<Rightarrow> u
                       | Some d \<Rightarrow>
                           if year d * 12 + month d < year now * 12 + month now
                           then u\<lparr>monthlyUsage := Some 0, usageResetDate := Some now\<rparr>
                           else u) (users (world s))"
proof -
  have "(\<lambda>u. if due now u then u\<lparr>monthlyUsage := Some 0, usageResetDate := Some now\<rparr> else u) =
      (\<lambda>u. case usageResetDate u of
               None \<Rightarrow> u
             | Some d \<Rightarrow>
                 if year d * 12 + month d < year now * 12 + month now
                 then u\<lparr>monthlyUsage := Some 0, usageResetDate := Some now\<rparr>
                 else u)"
    by (auto simp: due_def DATEDIFF_month_def fun_eq_iff split: option.splits)
  then show ?thesis
    using resetMonthlyUsage_healthy [OF assms(1,2)] unfolding assms(3) by simp
qed

text \<open>
  Claim C4 as amended, on 14 February 2024: the rows last reset on 14 and on 15 January
  are reset, the row last reset on 1 February is not.
\<close>

theorem resetMonthlyUsage_month_boundary_witness:
  "\<exists>s'. resetMonthlyUsage (start (quiet_world\<lparr>users := three_members\<rparr>)) = (Inr (), s') \<and>
     map (\<lambda>u. (user_id u, monthlyUsage u, usageResetDate u)) (users (world s')) =
       [(''u1'', Some 0, Some \<lparr>year = 2024, month = 2, day = 14, time = 0\<rparr>),
        (''u2'', Some 0, Some \<lparr>year = 2024, month = 2, day = 14, time = 0\<rparr>),
        (''u3'', Some 300, Some \<lparr>year = 2024, month = 2, day = 1, time = 0\<rparr>)]"
proof -
  let ?s = "start (quiet_world\<lparr>users := three_members\<rparr>)"
  let ?now = "\<lparr>year = 2024, month = 2, day = 14, time = 0\<rparr>"
  have p: "connect_results (world ?s) = []" "query_results (world ?s) = []"
    "?now = GETDATE (world ?s)"
    by (simp_all add: start_def quiet_world_def)
  have us: "users (world ?s) = three_members"
    by (simp add: start_def)
  from resetMonthlyUsage_month_boundary [OF p] obtain s' where
    ru: "resetMonthlyUsage ?s = (Inr (), s') \<and>
           users (world s') =
             map (\<lambda>u. case usageResetDate u of
                         None \<Rightarrow> u
                       | Some d \<Rightarrow>
                           if year d * 12 + month d < year ?now * 12 + month ?now
                           then u\<lparr>monthlyUsage := Some 0, usageResetDate := Some ?now\<rparr>
                           else u) (users (world ?s))" ..
  from ru have r: "resetMonthlyUsage ?s = (Inr (), s')" ..
  from ru have "users (world s') =
             map (\<lambda>u. case usageResetDate u of
                         None \<Rightarrow> u
                       | Some d \<Rightarrow>
                           if year d * 12 + month d < year ?now * 12 + month ?now
                           then u\<lparr>monthlyUsage := Some 0, usageResetDate := Some ?now\<rparr>
                           else u) three_members"
    unfolding us ..
  then have m: "map (\<lambda>u. (user_id u, monthlyUsage u, usageResetDate u)) (users (world s')) =
       [(''u1'', Some 0, Some ?now), (''u2'', Some 0, Some ?now),
        (''u3'', Some 300, Some \<lparr>year = 2024, month = 2, day = 1, time = 0\<rparr>)]"
    by (simp add: three_members_def member_row_def)
  show ?thesis
    by (rule exI [of _ s'], rule conjI [OF r m])
qed

lemma month_elapsed_crosses_boundary:
  assumes "month_elapsed d now" and "1 \<le> month d" and "month d \<le> 12" and "1 \<le> month now"
  shows "year d * 12 + month d < year now * 12 + month now"
proof -
  let ?l = "one_month_later d"
  have idx: "year ?l * 12 + month ?l = year d * 12 + month d + 1" and hi: "month ?l \<le> 12"
    using assms(2,3) by (auto simp: one_month_later_def Let_def)
  from assms(1) have "year ?l < year now \<or> (year ?l = year now \<and> month ?l \<le> month now)"
    by (auto simp: month_elapsed_def reached_def less_eq_prod_def less_prod_def)
  then have "year ?l * 12 + month ?l \<le> year now * 12 + month now"
    using hi assms(4) by auto
  with idx show ?thesis by simp
qed

section \<open>Usage between resets\<close>

lemma usage_le_refl: "usage_le m m"
  by (cases m) simp_all

lemma usage_le_trans: "usage_le a b \<Longrightarrow> usage_le b c \<Longrightarrow> usage_le a c"
  by (cases a; cases b; cases c) simp_all

lemma usage_kept_nth:
  "usage_kept before after \<longleftrightarrow>
     length before \<le> length after \<and>
     (\<forall>k < length before. user_id (before ! k) = user_id (after ! k) \<and>
        usage_le (monthlyUsage (before ! k)) (monthlyUsage (after ! k)))"
  by (auto simp: usage_kept_def list_all2_conv_all_nth)

lemma usage_kept_refl: "usage_kept us us"
  by (simp add: usage_kept_nth usage_le_refl)

lemma usage_kept_trans:
  assumes "usage_kept a b" and "usage_kept b c"
  shows "usage_kept a c"
  unfolding usage_kept_nth
proof (intro conjI allI impI)
  show "length a \<le> length c"
    using assms by (simp add: usage_kept_nth)
next
  fix k assume "k < length a"
  then have ka: "k < length a" and kb: "k < length b"
    using assms(1) by (simp_all add: usage_kept_nth)
  from assms(1) ka have 1: "user_id (a ! k) = user_id (b ! k)"
    "usage_le (monthlyUsage (a ! k)) (monthlyUsage (b ! k))"
    by (simp_all add: usage_kept_nth)
  from assms(2) kb have 2: "user_id (b ! k) = user_id (c ! k)"
    "usage_le (monthlyUsage (b ! k)) (monthlyUsage (c ! k))"
    by (simp_all add: usage_kept_nth)
  show "user_id (a ! k) = user_id (c ! k)"
    using 1 2 by simp
  show "usage_le (monthlyUsage (a ! k)) (monthlyUsage (c ! k))"
    using 1 2 by (blast intro: usage_le_trans)
qed

lemma usage_kept_append: "usage_kept us (us @ vs)"
  by (simp add: usage_kept_nth nth_append usage_le_refl)

lemma usage_kept_map:
  assumes "\<And>u. user_id (f u) = user_id u"
    and "\<And>u. usage_le (monthlyUsage u) (monthlyUsage (f u))"
  shows "usage_kept us (map f us)"
  by (simp add: usage_kept_nth assms)

lemma connect_users: "users (snd (connect w)) = users w"
  by (simp add: connect_def split: list.splits)

lemma getDbConnection_users: "users (world (snd (getDbConnection s))) = users (world s)"
proof -
  obtain r w where c: "connect (world s) = (r, w)" by (cases "connect (world s)")
  with connect_users [of "world s"] have "users w = users (world s)" by simp
  with c show ?thesis
    by (simp add: getDbConnection_def Let_def emit_def split: option.splits)
qed

lemma attempt_kept:
  assumes "\<And>p w. usage_kept (users w) (users (snd (operation p w)))"
  shows "usage_kept (users (world s)) (users (world (snd (attempt operation s))))"
proof (cases "getDbConnection s")
  case (Pair r s1)
  with getDbConnection_users [of s] have u: "users (world s1) = users (world s)" by simp
  show ?thesis
  proof (cases r)
    case (Inl e)
    with Pair u show ?thesis
      by (simp add: attempt_def usage_kept_refl)
  next
    case (Inr p)
    obtain r' w where o: "operation p (world s1) = (r', w)" by (cases "operation p (world s1)")
    with assms [of "world s1" p] have "usage_kept (users (world s)) (users w)"
      by (simp add: u)
    with Pair Inr o show ?thesis
      by (cases r') (simp_all add: attempt_def)
  qed
qed

lemma reset_pool_on_users [simp]: "users (world (reset_pool_on e s)) = users (world s)"
  by simp

lemma withRetry_loop_kept:
  assumes "\<And>p w. usage_kept (users w) (users (snd (operation p w)))"
  shows "usage_kept (users (world s)) (users (world (snd (withRetry_loop operation m n s))))"
  using assms
proof (induction operation m n s rule: withRetry_loop.induct)
  case (1 operation maxRetries retryCount s)
  note op = "1.prems"
  show ?case
  proof (cases "retryCount \<le> maxRetries")
    case False
    then show ?thesis
      by (subst withRetry_loop.simps) (simp add: usage_kept_refl)
  next
    case True
    obtain r s1 where a: "attempt operation s = (r, s1)" by (cases "attempt operation s")
    from attempt_kept [of operation s, OF op] a
    have k: "usage_kept (users (world s)) (users (world s1))" by simp
    show ?thesis
    proof (cases r)
      case (Inr v)
      with a True k show ?thesis
        by (subst withRetry_loop.simps) simp
    next
      case (Inl e)
      show ?thesis
      proof (cases "retryCount + 1 > maxRetries")
        case last: True
        with a True k Inl show ?thesis
          by (subst withRetry_loop.simps) simp
      next
        case more: False
        let ?s2 = "emit (Slept (500 * (retryCount + 1))) (reset_pool_on e s1)"
        from "1.IH" [OF True a [symmetric] Inl more op]
        have "usage_kept (users (world ?s2))
            (users (world (snd (withRetry_loop operation maxRetries (retryCount + 1) ?s2))))"
          by simp
        then have "usage_kept (users (world s1))
            (users (world (snd (withRetry_loop operation maxRetries (retryCount + 1) ?s2))))"
          by simp
        with k have "usage_kept (users (world s))
            (users (world (snd (withRetry_loop operation maxRetries (retryCount + 1) ?s2))))"
          by (rule usage_kept_trans)
        moreover have "withRetry_loop operation maxRetries retryCount s =
            withRetry_loop operation maxRetries (retryCount + 1) ?s2"
          using a True Inl more by (subst withRetry_loop.simps) simp
        ultimately show ?thesis by simp
      qed
    qed
  qed
qed

lemma withRetry_kept:
  assumes "\<And>p w. usage_kept (users w) (users (snd (operation p w)))"
  shows "usage_kept (users (world s)) (users (world (snd (withRetry operation m s))))"
  unfolding withRetry_def using assms by (rule withRetry_loop_kept)

lemma query_kept:
  assumes "\<And>w r w'. statement w = Inr (r, w') \<Longrightarrow> usage_kept (users w) (users w')"
  shows "usage_kept (users w) (users (snd (query statement w)))"
proof -
  have run: "usage_kept (users v) (users (snd (run_statement statement v)))" for v
  proof (cases "statement v")
    case (Inl e)
    then show ?thesis by (simp add: run_statement_def usage_kept_refl)
  next
    case (Inr rw)
    then obtain r w' where "statement v = Inr (r, w')" by (cases rw) simp
    with assms [of v r w'] show ?thesis by (simp add: run_statement_def)
  qed
  show ?thesis
  proof (cases "query_results w")
    case Nil
    with run [of w] show ?thesis by (simp add: query_def)
  next
    case (Cons x xs)
    show ?thesis
    proof (cases x)
      case None
      with Cons run [of "w\<lparr>query_results := xs\<rparr>"] show ?thesis by (simp add: query_def)
    next
      case (Some e)
      with Cons show ?thesis by (simp add: query_def usage_kept_refl)
    qed
  qed
qed

lemma query_reads_kept:
  assumes "\<And>w. \<exists>r. statement w = Inr (r, w)"
  shows "usage_kept (users w) (users (snd (query statement w)))"
proof (rule query_kept)
  fix v r w' assume "statement v = Inr (r, w')"
  with assms [of v] show "usage_kept (users v) (users w')"
    by (auto simp: usage_kept_refl)
qed

lemma first_row_snd [simp]: "snd (first_row x) = snd x"
  by (cases x) (auto simp: first_row_def split: sum.splits)

lemma select_by_id_reads: "\<exists>r. select_by_id i w = Inr (r, w)"
  by (simp add: select_by_id_def)

lemma select_by_email_reads: "\<exists>r. select_by_email e w = Inr (r, w)"
  by (simp add: select_by_email_def)

lemma lookup_kept:
  "usage_kept (users (world s))
     (users (world (snd (withRetry_default (\<lambda>pool w. first_row (query (select_by_id i) w)) s))))"
  by (rule withRetry_kept) (simp add: query_reads_kept [OF select_by_id_reads])

lemma findUserByEmail_kept:
  "usage_kept (users (world s)) (users (world (snd (findUserByEmail e s))))"
  unfolding findUserByEmail_def
  by (rule withRetry_kept) (simp add: query_reads_kept [OF select_by_email_reads])

lemma createUser_kept:
  "usage_kept (users (world s)) (users (world (snd (createUser i e n p s))))"
  unfolding createUser_def
proof (rule withRetry_kept, rule query_kept)
  fix w r w' assume "insert_user i e n p w = Inr (r, w')"
  then show "usage_kept (users w) (users w')"
    by (auto simp: insert_user_def usage_kept_append split: if_splits)
qed

lemma updateLoginTracking_kept:
  "usage_kept (users (world s)) (users (world (snd (updateLoginTracking i s))))"
  unfolding updateLoginTracking_def
proof (rule withRetry_kept, rule query_kept)
  fix w r w' assume "update_login i w = Inr (r, w')"
  then show "usage_kept (users w) (users w')"
    by (auto simp: update_login_def usage_le_refl split: if_splits intro!: usage_kept_map)
qed

lemma updateUserUsage_kept:
  assumes "0 \<le> n"
  shows "usage_kept (users (world s)) (users (world (snd (updateUserUsage i n s))))"
  unfolding updateUserUsage_def
proof (rule withRetry_kept, rule query_kept)
  fix w r w' assume "update_usage i n w = Inr (r, w')"
  moreover have "usage_le m (map_option (\<lambda>m. m + n) m)" for m
    using assms by (cases m) simp_all
  ultimately show "usage_kept (users w) (users w')"
    by (auto simp: update_usage_def usage_le_refl split: if_splits intro!: usage_kept_map)
qed

lemma select_audio_kept:
  "select_audio i k w = Inr (r, w') \<Longrightarrow> usage_kept (users w) (users w')"
  by (auto simp: select_audio_def usage_kept_refl split: if_splits)

lemma getUserAudioFiles_kept:
  "usage_kept (users (world s)) (users (world (snd (getUserAudioFiles i k s))))"
  unfolding getUserAudioFiles_def
  by (rule withRetry_kept, rule query_kept, rule select_audio_kept)

lemma insert_audio_kept:
  "insert_audio a d w = Inr (r, w') \<Longrightarrow> usage_kept (users w) (users w')"
  by (auto simp: insert_audio_def usage_kept_refl split: if_splits)

lemma save_audio_kept: "usage_kept (users w) (users (snd (save_audio d w)))"
proof -
  let ?w = "w\<lparr>random_drawn := Suc (random_drawn w)\<rparr>"
  have "usage_kept (users ?w) (users (snd (query (insert_audio (next_audio_id w) d) ?w)))"
    by (rule query_kept) (rule insert_audio_kept)
  then show ?thesis
    by (cases "query (insert_audio (next_audio_id w) d) ?w")
      (auto simp: save_audio_def Let_def split: sum.splits)
qed

lemma saveAudioFile_kept:
  "usage_kept (users (world s)) (users (world (snd (saveAudioFile d s))))"
  unfolding saveAudioFile_def by (rule withRetry_kept) (rule save_audio_kept)

lemma canUserUseCharacters_kept:
  "usage_kept (users (world s)) (users (world (snd (canUserUseCharacters i n s))))"
proof -
  have "snd (canUserUseCharacters i n s) = snd (getUserWithSubscription i s)"
    by (cases "getUserWithSubscription i s")
      (auto simp: canUserUseCharacters_def split: sum.splits option.splits)
  then show ?thesis
    by (simp add: getUserWithSubscription_def lookup_kept)
qed

lemma getUserDashboard_kept:
  "usage_kept (users (world s)) (users (world (snd (getUserDashboard i s))))"
proof (cases "getUserWithSubscription i s")
  case (Pair r s1)
  with lookup_kept [of s i] have k1: "usage_kept (users (world s)) (users (world s1))"
    by (simp add: getUserWithSubscription_def)
  show ?thesis
  proof (cases r)
    case (Inl e)
    with Pair k1 show ?thesis by (simp add: getUserDashboard_def)
  next
    case (Inr found)
    have "snd (getUserDashboard i s) = snd (getUserAudioFiles i 5 s1)"
      using Pair Inr
      by (cases "getUserAudioFiles i 5 s1") (auto simp: getUserDashboard_def split: sum.splits)
    with usage_kept_trans [OF k1 getUserAudioFiles_kept [of s1 i 5]] show ?thesis
      by simp
  qed
qed

lemma create_tables_users: "users (world (snd (create_tables s))) = users (world s)"
proof -
  have q: "users (snd (query create_if_missing w)) = users w" for w
    by (simp add: query_def run_statement_def create_if_missing_def split: list.splits option.splits)
  obtain r s1 where g: "getDbConnection s = (r, s1)" by (cases "getDbConnection s")
  with getDbConnection_users [of s] have u: "users (world s1) = users (world s)" by simp
  show ?thesis
  proof (cases r)
    case (Inl e)
    with g u show ?thesis by (simp add: create_tables_def)
  next
    case (Inr p)
    obtain r1 w1 where q1: "query create_if_missing (world s1) = (r1, w1)"
      by (cases "query create_if_missing (world s1)")
    with q [of "world s1"] have u1: "users w1 = users (world s)" by (simp add: u)
    obtain r2 w2 where q2: "query create_if_missing w1 = (r2, w2)"
      by (cases "query create_if_missing w1")
    with q [of w1] have u2: "users w2 = users (world s)" by (simp add: u1)
    from g Inr q1 q2 u1 u2 show ?thesis
      by (cases r1; cases r2) (simp_all add: create_tables_def)
  qed
qed

lemma initializeDatabase_loop_users:
  "users (world (snd (initializeDatabase_loop n s))) = users (world s)"
proof (induction n s rule: initializeDatabase_loop.induct)
  case (1 retryCount s)
  obtain r s1 where c: "create_tables s = (r, s1)" by (cases "create_tables s")
  with create_tables_users [of s] have u: "users (world s1) = users (world s)" by simp
  show ?case
  proof (cases "retryCount < 3")
    case False
    then show ?thesis by (subst initializeDatabase_loop.simps) simp
  next
    case True
    show ?thesis
    proof (cases r)
      case (Inr v)
      with c True u show ?thesis by (subst initializeDatabase_loop.simps) simp
    next
      case (Inl e)
      show ?thesis
      proof (cases "retryCount + 1 \<ge> 3")
        case last: True
        with c True u Inl show ?thesis by (subst initializeDatabase_loop.simps) simp
      next
        case more: False
        from "1.IH" [OF True c [symmetric] Inl more] u c True Inl more show ?thesis
          by (subst initializeDatabase_loop.simps) simp
      qed
    qed
  qed
qed

lemma updateUserUsage_healthy:
  assumes "connect_results (world s) = []" and "query_results (world s) = []"
    and "update_usage i n (world s) = Inr ((), w)"
  shows "\<exists>s'. updateUserUsage i n s = (Inr (), s') \<and> world s' = w"
proof -
  have "\<exists>s'. withRetry_default (\<lambda>pool. query (update_usage i n)) s = (Inr (), s') \<and>
      world s' = w \<and> trace s' = trace s @ [Ran None]"
    by (rule withRetry_first_attempt [OF assms(1)])
      (simp add: assms(2,3) query_healthy run_statement_def)
  then show ?thesis
    unfolding updateUserUsage_def by blast
qed

text \<open>
  Claim C7 fails. \<^verbatim>\<open>updateUserUsage\<close> adds the number it is given: with \<open>- 5\<close> a usage of 100
  becomes 95.
\<close>

theorem updateUserUsage_negative_counterexample:
  "map monthlyUsage (users (world (snd (updateUserUsage ''u1'' (- 5)
     (start (quiet_world\<lparr>users := [member_row ''u1'' (Some ''free'') (Some 100) None]\<rparr>)))))) =
   [Some 95]"
proof -
  let ?u = "member_row ''u1'' (Some ''free'') (Some 100) None"
  let ?s = "start (quiet_world\<lparr>users := [?u]\<rparr>)"
  have h: "connect_results (world ?s) = []" "query_results (world ?s) = []"
    by (simp_all add: start_def quiet_world_def)
  have "update_usage ''u1'' (- 5) (world ?s) =
      Inr ((), (world ?s)\<lparr>users := [?u\<lparr>monthlyUsage := Some 95\<rparr>]\<rparr>)"
    by (simp add: update_usage_def start_def quiet_world_def member_row_def int32_def)
  from updateUserUsage_healthy [OF h this] obtain s' where
    "updateUserUsage ''u1'' (- 5) ?s = (Inr (), s')"
    and "world s' = (world ?s)\<lparr>users := [?u\<lparr>monthlyUsage := Some 95\<rparr>]\<rparr>"
    by blast
  then show ?thesis by simp
qed

text \<open>
  Claim C7 as amended. No call into the module other than \<^verbatim>\<open>resetMonthlyUsage\<close>, and
  other than \<^verbatim>\<open>updateUserUsage\<close> with a negative number, lowers the usage of any row,
  whatever the driver does during the call: every row is still there with at least the
  usage it had.
\<close>

theorem monthlyUsage_never_decreases:
  assumes "c \<noteq> ResetMonthlyUsage"
    and "\<And>i n. c = UpdateUserUsage i n \<Longrightarrow> 0 \<le> n"
  shows "usage_kept (users (world s)) (users (world (perform c s)))"
proof (cases c)
  case GetDbConnection
  then show ?thesis by (simp add: getDbConnection_users usage_kept_refl)
next
  case InitializeDatabase
  then show ?thesis
    by (simp only: perform.simps initializeDatabase_def initializeDatabase_loop_users
        usage_kept_refl)
next
  case (CreateUser i e n p)
  then show ?thesis by (simp add: createUser_kept)
next
  case (FindUserByEmail e)
  then show ?thesis by (simp add: findUserByEmail_kept)
next
  case (FindUserById i)
  then show ?thesis by (simp add: findUserById_def lookup_kept)
next
  case (UpdateLoginTracking i)
  then show ?thesis by (simp add: updateLoginTracking_kept)
next
  case (GetUserLoginHistory i)
  then show ?thesis by (simp add: getUserLoginHistory_def lookup_kept)
next
  case (GetUserWithSubscription i)
  then show ?thesis by (simp add: getUserWithSubscription_def lookup_kept)
next
  case (UpdateUserUsage i n)
  with assms(2) have "0 \<le> n" by simp
  with UpdateUserUsage show ?thesis by (simp add: updateUserUsage_kept)
next
  case (CanUserUseCharacters i n)
  then show ?thesis by (simp add: canUserUseCharacters_kept)
next
  case ResetMonthlyUsage
  with assms(1) show ?thesis by simp
next
  case (SaveAudioFile d)
  then show ?thesis by (simp add: saveAudioFile_kept)
next
  case (GetUserAudioFiles i k)
  then show ?thesis by (simp add: getUserAudioFiles_kept)
next
  case (GetUserDashboard i)
  then show ?thesis by (simp add: getUserDashboard_kept)
qed

text \<open>
  Claim C7 as amended, for \<^verbatim>\<open>updateUserUsage\<close> with 120 characters.
\<close>

theorem monthlyUsage_never_decreases_witness:
  "usage_kept
     (users (world (start (quiet_world\<lparr>users :=
        [member_row ''u1'' (Some ''free'') (Some 4000) None]\<rparr>))))
     (users (world (perform (UpdateUserUsage ''u1'' 120)
        (start (quiet_world\<lparr>users :=
           [member_row ''u1'' (Some ''free'') (Some 4000) None]\<rparr>))))) \<and>
   map monthlyUsage (users (world (perform (UpdateUserUsage ''u1'' 120)
     (start (quiet_world\<lparr>users :=
        [member_row ''u1'' (Some ''free'') (Some 4000) None]\<rparr>))))) = [Some 4120]"
proof -
  let ?u = "member_row ''u1'' (Some ''free'') (Some 4000) None"
  let ?s = "start (quiet_world\<lparr>users := [?u]\<rparr>)"
  have kept: "usage_kept (users (world ?s)) (users (world (perform (UpdateUserUsage ''u1'' 120) ?s)))"
    using monthlyUsage_never_decreases [of "UpdateUserUsage ''u1'' 120" ?s] by simp
  have h: "connect_results (world ?s) = []" "query_results (world ?s) = []"
    by (simp_all add: start_def quiet_world_def)
  have "update_usage ''u1'' 120 (world ?s) =
      Inr ((), (world ?s)\<lparr>users := [?u\<lparr>monthlyUsage := Some 4120\<rparr>]\<rparr>)"
    by (simp add: update_usage_def start_def quiet_world_def member_row_def int32_def)
  from updateUserUsage_healthy [OF h this] obtain s' where
    "updateUserUsage ''u1'' 120 ?s = (Inr (), s')"
    and "world s' = (world ?s)\<lparr>users := [?u\<lparr>monthlyUsage := Some 4120\<rparr>]\<rparr>"
    by blast
  then have "map monthlyUsage (users (world (perform (UpdateUserUsage ''u1'' 120) ?s))) =
      [Some 4120]"
    by simp
  with kept show ?thesis by (rule conjI)
qed

end
